theory Spec2Isabelle
  imports Complex_Main
begin

section \<open>Proximity analysis of detected poses (social\_distance\_posenet.py)\<close>

text \<open>
  A shallow embedding of the keypoint post-processing of the script: \<open>find_keypoint\<close>,
  \<open>person_center\<close>, \<open>person_height\<close>, \<open>distance\<close> and \<open>analyze_poses\<close>.
  Coordinates are Python floats in the source; here they are real numbers, so the
  arithmetic is exact.  Every exception the source can raise is a value \<open>Inl e\<close>.
  The console output of \<open>analyze_poses\<close> is returned as a list of lines that carry the
  numbers passed to \<open>print\<close> (before they are formatted).
\<close>

subsection \<open>Data model\<close>

text \<open>A keypoint of the detector exposes \<open>ID\<close>, \<open>x\<close> and \<open>y\<close>; a pose exposes
  the ordered collection \<open>Keypoints\<close>.\<close>

record keypoint =
  ID :: int
  x :: real
  y :: real

record pose =
  Keypoints :: "keypoint list"

text \<open>The two command-line thresholds read by \<open>analyze_poses\<close> from the global
  \<open>args\<close>: \<open>args.distance\<close> and \<open>args.rel_threshold\<close>.\<close>

record args =
  args_distance :: real
  args_rel_threshold :: real

text \<open>
  The exceptions of the source: \<open>sum(xs) / len(xs)\<close> and \<open>d_abs / avg_h\<close> raise
  \<open>ZeroDivisionError\<close> on a zero divisor, \<open>max\<close> and \<open>min\<close> raise \<open>ValueError\<close> on an
  empty list, indexing raises \<open>IndexError\<close> out of range.  \<open>InvalidPoseError\<close> is the
  error named by the specification; no code of the source raises it.
\<close>

datatype error = ZeroDivisionError | ValueError | IndexError | InvalidPoseError

type_synonym center = "real \<times> real"

definition LEFT_HIP_ID :: int where
  "LEFT_HIP_ID = 11"

definition RIGHT_HIP_ID :: int where
  "RIGHT_HIP_ID = 12"

subsection \<open>Python primitives used by the script\<close>

definition py_div :: "real \<Rightarrow> real \<Rightarrow> error + real" where
  "py_div a b = (if b = 0 then Inl ZeroDivisionError else Inr (a / b))"

text \<open>\<open>sum\<close> adds from the left, starting at 0.\<close>

definition py_sum :: "real list \<Rightarrow> real" where
  "py_sum vs = foldl (+) 0 vs"

fun py_max :: "real list \<Rightarrow> error + real" where
  "py_max [] = Inl ValueError"
| "py_max (v # vs) = Inr (fold max vs v)"

fun py_min :: "real list \<Rightarrow> error + real" where
  "py_min [] = Inl ValueError"
| "py_min (v # vs) = Inr (fold min vs v)"

definition py_index :: "'a list \<Rightarrow> nat \<Rightarrow> error + 'a" where
  "py_index vs i = (if i < length vs then Inr (vs ! i) else Inl IndexError)"

subsection \<open>Helper functions of the script\<close>

fun find_in :: "keypoint list \<Rightarrow> int \<Rightarrow> keypoint option" where
  "find_in [] kp_id = None"
| "find_in (kp # kps) kp_id = (if ID kp = kp_id then Some kp else find_in kps kp_id)"

definition find_keypoint :: "pose \<Rightarrow> int \<Rightarrow> keypoint option" where
  "find_keypoint pose kp_id = find_in (Keypoints pose) kp_id"

definition person_center :: "pose \<Rightarrow> error + center" where
  "person_center pose =
     (let lh = find_keypoint pose LEFT_HIP_ID;
          rh = find_keypoint pose RIGHT_HIP_ID
      in case (lh, rh) of
           (Some l, Some r) \<Rightarrow> Inr ((x l + x r) / 2, (y l + y r) / 2)
         | _ \<Rightarrow>
           (let xs = map x (Keypoints pose);
                ys = map y (Keypoints pose)
            in case py_div (py_sum xs) (real (length xs)) of
                 Inl e \<Rightarrow> Inl e
               | Inr cx \<Rightarrow>
                 (case py_div (py_sum ys) (real (length ys)) of
                    Inl e \<Rightarrow> Inl e
                  | Inr cy \<Rightarrow> Inr (cx, cy))))"

definition person_height :: "pose \<Rightarrow> error + real" where
  "person_height pose =
     (let ys = map y (Keypoints pose)
      in case py_max ys of
           Inl e \<Rightarrow> Inl e
         | Inr hi \<Rightarrow> (case py_min ys of Inl e \<Rightarrow> Inl e | Inr lo \<Rightarrow> Inr (hi - lo)))"

text \<open>\<open>math.hypot\<close> of the two coordinate differences.\<close>

definition distance :: "center \<Rightarrow> center \<Rightarrow> real" where
  "distance c1 c2 = sqrt ((fst c1 - fst c2)\<^sup>2 + (snd c1 - snd c2)\<^sup>2)"

subsection \<open>The analysis of one frame\<close>

text \<open>The numbers of one pair, as the inner loop computes and prints them.\<close>

record pair_stats =
  pv_i :: nat
  pv_j :: nat
  d_abs :: real
  avg_h :: real
  d_rel :: real
  abs_flag :: bool
  rel_flag :: bool

datatype out_line =
    NoPeople
  | CentersHeader
  | PersonLine nat center real
  | PairwiseHeader
  | PairLine pair_stats
  | ThresholdsLine real real
  | VerdictLine bool

text \<open>The first loop: \<open>for i, pose in enumerate(poses)\<close>.\<close>

fun geometry_loop ::
  "nat \<Rightarrow> pose list \<Rightarrow> center list \<times> real list \<times> out_line list
     \<Rightarrow> error + (center list \<times> real list \<times> out_line list)" where
  "geometry_loop i [] st = Inr st"
| "geometry_loop i (pose # rest) (centers, heights, out) =
     (case person_center pose of
        Inl e \<Rightarrow> Inl e
      | Inr c \<Rightarrow>
        (case person_height pose of
           Inl e \<Rightarrow> Inl e
         | Inr h \<Rightarrow>
           geometry_loop (Suc i) rest
             (centers @ [c], heights @ [h], out @ [PersonLine i c h])))"

text \<open>The conditional expression of line 162.  \<open>and\<close> evaluates \<open>heights[j]\<close> only
  when \<open>heights[i] > 0\<close>.\<close>

definition avg_h_expr :: "real list \<Rightarrow> nat \<Rightarrow> nat \<Rightarrow> error + real" where
  "avg_h_expr heights i j =
     (case py_index heights i of
        Inl e \<Rightarrow> Inl e
      | Inr hi \<Rightarrow>
        (if hi > 0 then
           (case py_index heights j of
              Inl e \<Rightarrow> Inl e
            | Inr hj \<Rightarrow> (if hj > 0 then Inr ((hi + hj) / 2) else Inr 1))
         else Inr 1))"

text \<open>The body of the inner loop up to the \<open>print\<close>.\<close>

definition pair_body ::
  "args \<Rightarrow> center list \<Rightarrow> real list \<Rightarrow> nat \<Rightarrow> nat \<Rightarrow> error + pair_stats" where
  "pair_body a centers heights i j =
     (case py_index centers i of
        Inl e \<Rightarrow> Inl e
      | Inr ci \<Rightarrow>
        (case py_index centers j of
           Inl e \<Rightarrow> Inl e
         | Inr cj \<Rightarrow>
           (case avg_h_expr heights i j of
              Inl e \<Rightarrow> Inl e
            | Inr avgh \<Rightarrow>
              (case py_div (distance ci cj) avgh of
                 Inl e \<Rightarrow> Inl e
               | Inr drel \<Rightarrow>
                 Inr \<lparr>pv_i = i, pv_j = j, d_abs = distance ci cj, avg_h = avgh,
                      d_rel = drel,
                      abs_flag = (distance ci cj < args_distance a),
                      rel_flag = (drel < args_rel_threshold a)\<rparr>))))"

text \<open>The inner loop \<open>for j in range(i + 1, len(centers))\<close>, over the list of its
  indices; the state is \<open>any_violence\<close> and the output so far.\<close>

fun pair_loop ::
  "args \<Rightarrow> center list \<Rightarrow> real list \<Rightarrow> nat \<Rightarrow> nat list \<Rightarrow> bool \<times> out_line list
     \<Rightarrow> error + (bool \<times> out_line list)" where
  "pair_loop a centers heights i [] st = Inr st"
| "pair_loop a centers heights i (j # js) (any_violence, out) =
     (case pair_body a centers heights i j of
        Inl e \<Rightarrow> Inl e
      | Inr pv \<Rightarrow>
        pair_loop a centers heights i js
          (if abs_flag pv \<or> rel_flag pv then True else any_violence,
           out @ [PairLine pv]))"

text \<open>The outer loop \<open>for i in range(len(centers))\<close>.\<close>

fun person_loop ::
  "args \<Rightarrow> center list \<Rightarrow> real list \<Rightarrow> nat list \<Rightarrow> bool \<times> out_line list
     \<Rightarrow> error + (bool \<times> out_line list)" where
  "person_loop a centers heights [] st = Inr st"
| "person_loop a centers heights (i # is) st =
     (case pair_loop a centers heights i [Suc i..<length centers] st of
        Inl e \<Rightarrow> Inl e
      | Inr st' \<Rightarrow> person_loop a centers heights is st')"

text \<open>\<open>analyze_poses\<close> returns the printed lines and the tuple
  \<open>(any_violence, centers, heights)\<close>.\<close>

definition analyze_poses ::
  "args \<Rightarrow> pose list \<Rightarrow> error + (out_line list \<times> bool \<times> center list \<times> real list)" where
  "analyze_poses a poses =
     (if length poses = 0 then Inr ([NoPeople], False, [], [])
      else
        case geometry_loop 0 poses ([], [], [CentersHeader]) of
          Inl e \<Rightarrow> Inl e
        | Inr (centers, heights, out1) \<Rightarrow>
          (case person_loop a centers heights [0..<length centers]
                  (False, out1 @ [PairwiseHeader]) of
             Inl e \<Rightarrow> Inl e
           | Inr (any_violence, out2) \<Rightarrow>
             Inr (out2 @ [ThresholdsLine (args_distance a) (args_rel_threshold a),
                          VerdictLine any_violence],
                  any_violence, centers, heights)))"

text \<open>The pair verdicts of a run are the per-pair lines of its output, in order.\<close>

fun pair_verdicts :: "out_line list \<Rightarrow> pair_stats list" where
  "pair_verdicts [] = []"
| "pair_verdicts (PairLine pv # ls) = pv # pair_verdicts ls"
| "pair_verdicts (_ # ls) = pair_verdicts ls"

text \<open>What \<open>pair_body\<close> returns for indices in range, written without the error
  branches; used to state the lemmas about the iterations.\<close>

definition pair_of :: "args \<Rightarrow> center list \<Rightarrow> real list \<Rightarrow> nat \<Rightarrow> nat \<Rightarrow> pair_stats" where
  "pair_of a centers heights i j =
     \<lparr>pv_i = i, pv_j = j,
      d_abs = distance (centers ! i) (centers ! j),
      avg_h = (if heights ! i > 0 \<and> heights ! j > 0 then (heights ! i + heights ! j) / 2 else 1),
      d_rel = distance (centers ! i) (centers ! j) /
              (if heights ! i > 0 \<and> heights ! j > 0 then (heights ! i + heights ! j) / 2 else 1),
      abs_flag = (distance (centers ! i) (centers ! j) < args_distance a),
      rel_flag = (distance (centers ! i) (centers ! j) /
              (if heights ! i > 0 \<and> heights ! j > 0 then (heights ! i + heights ! j) / 2 else 1)
              < args_rel_threshold a)\<rparr>"

subsection \<open>An example frame\<close>

text \<open>Three people: two with hips and a vertical extent, 100 pixels apart, and one
  detected as a single keypoint, 150 pixels from the second.  The thresholds are the
  defaults of the command line.\<close>

abbreviation example_args :: args where
  "example_args \<equiv> \<lparr>args_distance = 150, args_rel_threshold = 7 / 10\<rparr>"

abbreviation example_frame :: "pose list" where
  "example_frame \<equiv>
     [\<lparr>Keypoints = [\<lparr>ID = 0, x = 0, y = - 100\<rparr>, \<lparr>ID = 11, x = - 10, y = 0\<rparr>,
                    \<lparr>ID = 12, x = 10, y = 0\<rparr>, \<lparr>ID = 15, x = 0, y = 100\<rparr>]\<rparr>,
      \<lparr>Keypoints = [\<lparr>ID = 0, x = 100, y = - 50\<rparr>, \<lparr>ID = 11, x = 90, y = 0\<rparr>,
                    \<lparr>ID = 12, x = 110, y = 0\<rparr>, \<lparr>ID = 15, x = 100, y = 50\<rparr>]\<rparr>,
      \<lparr>Keypoints = [\<lparr>ID = 0, x = 250, y = 0\<rparr>]\<rparr>]"

abbreviation example_output :: "out_line list" where
  "example_output \<equiv>
     [CentersHeader,
      PersonLine 0 (0, 0) 200, PersonLine 1 (100, 0) 100, PersonLine 2 (250, 0) 0,
      PairwiseHeader,
      PairLine \<lparr>pv_i = 0, pv_j = 1, d_abs = 100, avg_h = 150, d_rel = 2 / 3,
                abs_flag = True, rel_flag = True\<rparr>,
      PairLine \<lparr>pv_i = 0, pv_j = 2, d_abs = 250, avg_h = 1, d_rel = 250,
                abs_flag = False, rel_flag = False\<rparr>,
      PairLine \<lparr>pv_i = 1, pv_j = 2, d_abs = 150, avg_h = 1, d_rel = 150,
                abs_flag = False, rel_flag = False\<rparr>,
      ThresholdsLine 150 (7 / 10), VerdictLine True]"

section \<open>Properties\<close>

subsection \<open>Keypoint lookup, center and height\<close>

lemma find_in_find: "find_in kps k = List.find (\<lambda>kp. ID kp = k) kps"
  by (induction kps) auto

lemma find_in_None: "find_in kps k = None \<longleftrightarrow> (\<forall>kp\<in>set kps. ID kp \<noteq> k)"
  by (induction kps) auto

lemma find_in_Some:
  "find_in kps k = Some kp \<longleftrightarrow>
     (\<exists>n<length kps. kps ! n = kp \<and> ID kp = k \<and> (\<forall>m<n. ID (kps ! m) \<noteq> k))"
  unfolding find_in_find find_Some_iff by blast

lemma find_in_hd_filter:
  "\<exists>kp\<in>set kps. ID kp = k \<Longrightarrow> find_in kps k = Some (hd (filter (\<lambda>kp. ID kp = k) kps))"
  by (induction kps) auto

lemma py_sum_sum_list: "py_sum vs = sum_list vs"
proof -
  have "foldl (+) a vs = a + sum_list vs" for a :: real
    by (induction vs arbitrary: a) auto
  then show ?thesis by (simp add: py_sum_def)
qed

lemma py_max_Max: "vs \<noteq> [] \<Longrightarrow> py_max vs = Inr (Max (set vs))"
  by (cases vs) (simp_all add: Max.set_eq_fold [symmetric])

lemma py_min_Min: "vs \<noteq> [] \<Longrightarrow> py_min vs = Inr (Min (set vs))"
  by (cases vs) (simp_all add: Min.set_eq_fold [symmetric])

lemma person_height_nonempty:
  "Keypoints p \<noteq> [] \<Longrightarrow>
   person_height p = Inr (Max (set (map y (Keypoints p))) - Min (set (map y (Keypoints p))))"
  by (simp add: person_height_def Let_def py_max_Max py_min_Min)

lemma person_center_hips:
  "find_in (Keypoints p) LEFT_HIP_ID = Some l \<Longrightarrow> find_in (Keypoints p) RIGHT_HIP_ID = Some r \<Longrightarrow>
   person_center p = Inr ((x l + x r) / 2, (y l + y r) / 2)"
  by (simp add: person_center_def find_keypoint_def)

lemma person_center_fallback:
  "find_in (Keypoints p) LEFT_HIP_ID = None \<or> find_in (Keypoints p) RIGHT_HIP_ID = None \<Longrightarrow>
   Keypoints p \<noteq> [] \<Longrightarrow>
   person_center p = Inr (sum_list (map x (Keypoints p)) / real (length (Keypoints p)),
                          sum_list (map y (Keypoints p)) / real (length (Keypoints p)))"
  by (auto simp add: person_center_def find_keypoint_def py_div_def py_sum_sum_list Let_def split: option.splits)

lemma person_center_empty: "Keypoints p = [] \<Longrightarrow> person_center p = Inl ZeroDivisionError"
  by (simp add: person_center_def find_keypoint_def py_div_def Let_def)

lemma person_height_empty: "Keypoints p = [] \<Longrightarrow> person_height p = Inl ValueError"
  by (simp add: person_height_def)

subsection \<open>The iterations of \<open>analyze_poses\<close>\<close>

lemma avg_h_expr_in_range:
  "i < length hs \<Longrightarrow> j < length hs \<Longrightarrow>
   avg_h_expr hs i j = Inr (if hs ! i > 0 \<and> hs ! j > 0 then (hs ! i + hs ! j) / 2 else 1)"
  by (simp add: avg_h_expr_def py_index_def)

lemma pair_body_in_range:
  assumes "i < length cs" "j < length cs" "length hs = length cs"
  shows "pair_body a cs hs i j = Inr (pair_of a cs hs i j)"
proof -
  let ?h = "if hs ! i > 0 \<and> hs ! j > 0 then (hs ! i + hs ! j) / 2 else 1"
  have "?h > 0" by simp
  then have "py_div (distance (cs ! i) (cs ! j)) ?h = Inr (distance (cs ! i) (cs ! j) / ?h)"
    by (simp add: py_div_def)
  with assms show ?thesis
    by (simp add: pair_body_def py_index_def avg_h_expr_in_range pair_of_def)
qed

lemma pair_loop_in_range:
  assumes "i < length cs" "length hs = length cs" "\<forall>j\<in>set js. j < length cs"
  shows "pair_loop a cs hs i js (v, out) =
           Inr (v \<or> (\<exists>j\<in>set js. abs_flag (pair_of a cs hs i j) \<or> rel_flag (pair_of a cs hs i j)),
                out @ map (\<lambda>j. PairLine (pair_of a cs hs i j)) js)"
  using assms
proof (induction js arbitrary: v out)
  case Nil
  then show ?case by simp
next
  case (Cons j js)
  then have "pair_body a cs hs i j = Inr (pair_of a cs hs i j)"
    by (simp add: pair_body_in_range)
  with Cons show ?case by auto
qed

lemma person_loop_in_range:
  assumes "length hs = length cs" "\<forall>i\<in>set ixs. i < length cs"
  shows "person_loop a cs hs ixs (v, out) =
           Inr (v \<or> (\<exists>i\<in>set ixs. \<exists>j\<in>set [Suc i..<length cs].
                        abs_flag (pair_of a cs hs i j) \<or> rel_flag (pair_of a cs hs i j)),
                out @ concat (map (\<lambda>i. map (\<lambda>j. PairLine (pair_of a cs hs i j)) [Suc i..<length cs]) ixs))"
  using assms
proof (induction ixs arbitrary: v out)
  case Nil
  then show ?case by simp
next
  case (Cons i ixs)
  then have "pair_loop a cs hs i [Suc i..<length cs] (v, out) =
           Inr (v \<or> (\<exists>j\<in>set [Suc i..<length cs]. abs_flag (pair_of a cs hs i j) \<or> rel_flag (pair_of a cs hs i j)),
                out @ map (\<lambda>j. PairLine (pair_of a cs hs i j)) [Suc i..<length cs])"
    by (intro pair_loop_in_range) auto
  with Cons show ?case by auto
qed

lemma pair_verdicts_append: "pair_verdicts (ls @ ms) = pair_verdicts ls @ pair_verdicts ms"
  by (induction ls rule: pair_verdicts.induct) simp_all

lemma pair_verdicts_PairLines: "pair_verdicts (map PairLine pvs) = pvs"
  by (induction pvs) simp_all

lemma person_center_total:
  assumes "Keypoints p \<noteq> []"
  shows "\<exists>c. person_center p = Inr c"
proof (cases "find_in (Keypoints p) LEFT_HIP_ID = None \<or> find_in (Keypoints p) RIGHT_HIP_ID = None")
  case True
  from person_center_fallback [OF True assms] show ?thesis ..
next
  case False
  then obtain l r where "find_in (Keypoints p) LEFT_HIP_ID = Some l"
    "find_in (Keypoints p) RIGHT_HIP_ID = Some r"
    by auto
  from person_center_hips [OF this] show ?thesis ..
qed

lemma geometry_loop_Inr:
  "geometry_loop i ps (cs, hs, out) = Inr (cs', hs', out') \<Longrightarrow>
   \<exists>cs2 hs2. cs' = cs @ cs2 \<and> hs' = hs @ hs2
     \<and> list_all2 (\<lambda>p c. person_center p = Inr c) ps cs2
     \<and> list_all2 (\<lambda>p h. person_height p = Inr h) ps hs2
     \<and> pair_verdicts out' = pair_verdicts out"
proof (induction ps arbitrary: i cs hs out)
  case Nil
  then show ?case by simp
next
  case (Cons p ps)
  from Cons.prems obtain c h where c: "person_center p = Inr c" and h: "person_height p = Inr h"
    and run: "geometry_loop (Suc i) ps (cs @ [c], hs @ [h], out @ [PersonLine i c h]) = Inr (cs', hs', out')"
    by (auto split: sum.splits)
  from Cons.IH [OF run] obtain cs3 hs3 where
    "cs' = (cs @ [c]) @ cs3" "hs' = (hs @ [h]) @ hs3"
    "list_all2 (\<lambda>p c. person_center p = Inr c) ps cs3"
    "list_all2 (\<lambda>p h. person_height p = Inr h) ps hs3"
    "pair_verdicts out' = pair_verdicts (out @ [PersonLine i c h])"
    by blast
  with c h have "cs' = cs @ (c # cs3) \<and> hs' = hs @ (h # hs3)
     \<and> list_all2 (\<lambda>p c. person_center p = Inr c) (p # ps) (c # cs3)
     \<and> list_all2 (\<lambda>p h. person_height p = Inr h) (p # ps) (h # hs3)
     \<and> pair_verdicts out' = pair_verdicts out"
    by (simp add: pair_verdicts_append)
  then show ?case by blast
qed

lemma geometry_loop_total:
  "\<forall>p\<in>set ps. Keypoints p \<noteq> [] \<Longrightarrow> \<exists>r. geometry_loop i ps (cs, hs, out) = Inr r"
proof (induction ps arbitrary: i cs hs out)
  case Nil
  then show ?case by simp
next
  case (Cons p ps)
  then have ne: "Keypoints p \<noteq> []" by simp
  from person_center_total [OF ne] obtain c where c: "person_center p = Inr c" ..
  from person_height_nonempty [OF ne] obtain h where h: "person_height p = Inr h" ..
  from Cons have "\<exists>r. geometry_loop (Suc i) ps (cs @ [c], hs @ [h], out @ [PersonLine i c h]) = Inr r"
    by simp
  with c h show ?case by simp
qed

lemma geometry_loop_empty_pose:
  "\<exists>p\<in>set ps. Keypoints p = [] \<Longrightarrow> geometry_loop i ps (cs, hs, out) = Inl ZeroDivisionError"
proof (induction ps arbitrary: i cs hs out)
  case Nil
  then show ?case by simp
next
  case (Cons p ps)
  show ?case
  proof (cases "Keypoints p = []")
    case True
    then show ?thesis by (simp add: person_center_empty)
  next
    case False
    from person_center_total [OF False] obtain c where c: "person_center p = Inr c" ..
    from person_height_nonempty [OF False] obtain h where h: "person_height p = Inr h" ..
    from Cons.prems False have "\<exists>p\<in>set ps. Keypoints p = []" by auto
    from Cons.IH [OF this] c h show ?thesis by simp
  qed
qed

text \<open>The whole run on poses that all have keypoints.\<close>

lemma analyze_poses_run:
  assumes "\<forall>p\<in>set poses. Keypoints p \<noteq> []"
  shows "\<exists>out anyv cs hs.
           analyze_poses a poses = Inr (out, anyv, cs, hs)
         \<and> list_all2 (\<lambda>p c. person_center p = Inr c) poses cs
         \<and> list_all2 (\<lambda>p h. person_height p = Inr h) poses hs
         \<and> pair_verdicts out =
             concat (map (\<lambda>i. map (pair_of a cs hs i) [Suc i..<length poses]) [0..<length poses])
         \<and> anyv = (\<exists>pv\<in>set (pair_verdicts out). abs_flag pv \<or> rel_flag pv)"
proof (cases "poses = []")
  case True
  then show ?thesis by (simp add: analyze_poses_def)
next
  case False
  from geometry_loop_total [OF assms] obtain cs hs out1 where
    g: "geometry_loop 0 poses ([], [], [CentersHeader]) = Inr (cs, hs, out1)"
    by (metis prod_cases3)
  from geometry_loop_Inr [OF g] have
    cs: "list_all2 (\<lambda>p c. person_center p = Inr c) poses cs" and
    hs: "list_all2 (\<lambda>p h. person_height p = Inr h) poses hs" and
    o1: "pair_verdicts out1 = []"
    by auto
  from cs have "length poses = length cs" by (rule list_all2_lengthD)
  moreover from hs have "length poses = length hs" by (rule list_all2_lengthD)
  ultimately have len: "length cs = length poses" "length hs = length cs"
    by simp_all
  let ?pvs = "concat (map (\<lambda>i. map (pair_of a cs hs i) [Suc i..<length cs]) [0..<length cs])"
  let ?anyv = "\<exists>pv\<in>set ?pvs. abs_flag pv \<or> rel_flag pv"
  have "person_loop a cs hs [0..<length cs] (False, out1 @ [PairwiseHeader]) =
           Inr (False \<or> (\<exists>i\<in>set [0..<length cs]. \<exists>j\<in>set [Suc i..<length cs].
                        abs_flag (pair_of a cs hs i j) \<or> rel_flag (pair_of a cs hs i j)),
                (out1 @ [PairwiseHeader]) @ concat (map (\<lambda>i. map (\<lambda>j. PairLine (pair_of a cs hs i j)) [Suc i..<length cs]) [0..<length cs]))"
    using len by (intro person_loop_in_range) auto
  moreover have "concat (map (\<lambda>i. map (\<lambda>j. PairLine (pair_of a cs hs i j)) [Suc i..<length cs]) [0..<length cs])
       = map PairLine ?pvs"
    by (simp add: map_concat comp_def)
  moreover have "(\<exists>i\<in>set [0..<length cs]. \<exists>j\<in>set [Suc i..<length cs].
                        abs_flag (pair_of a cs hs i j) \<or> rel_flag (pair_of a cs hs i j)) = ?anyv"
    by auto
  ultimately have p: "person_loop a cs hs [0..<length cs] (False, out1 @ [PairwiseHeader]) =
      Inr (?anyv, (out1 @ [PairwiseHeader]) @ map PairLine ?pvs)"
    by simp
  let ?out = "((out1 @ [PairwiseHeader]) @ map PairLine ?pvs) @
     [ThresholdsLine (args_distance a) (args_rel_threshold a), VerdictLine ?anyv]"
  from False g p have "analyze_poses a poses = Inr (?out, ?anyv, cs, hs)"
    by (simp add: analyze_poses_def)
  moreover have "pair_verdicts ?out = ?pvs"
    by (simp add: pair_verdicts_append pair_verdicts_PairLines o1)
  ultimately show ?thesis using cs hs len by auto
qed

lemma analyze_poses_empty_pose:
  "\<exists>p\<in>set poses. Keypoints p = [] \<Longrightarrow> analyze_poses a poses = Inl ZeroDivisionError"
  by (auto simp add: analyze_poses_def geometry_loop_empty_pose)

lemma triangle_sum: "sum_list (map (\<lambda>i. n - Suc i) [0..<n]) = n * (n - 1) div 2"
proof -
  have "sum_list (map (\<lambda>i. n - Suc i) [0..<n]) = (\<Sum>i<n. n - Suc i)"
    by (simp add: interv_sum_list_conv_sum_set_nat atLeast0LessThan)
  also have "\<dots> = (\<Sum>i<n. i)"
    by (rule sum.nat_diff_reindex)
  also have "\<dots> = n * (n - 1) div 2"
    using Sum_Ico_nat [of 0 n] by (simp add: atLeast0LessThan)
  finally show ?thesis .
qed

lemma length_index_pairs:
  "length (concat (map (\<lambda>i. map (f i) [Suc i..<n]) [0..<n])) = n * (n - 1) div 2"
  by (simp add: length_concat comp_def triangle_sum)

lemma distinct_index_pairs:
  "distinct ixs \<Longrightarrow> distinct (concat (map (\<lambda>i. map (Pair i) [Suc i..<n]) ixs))"
  by (induction ixs) (auto simp add: distinct_map inj_on_def)

lemma set_index_pairs:
  "set (concat (map (\<lambda>i. map (Pair i) [Suc i..<n]) [0..<n])) = {(i, j). i < j \<and> j < n}"
proof -
  have "(i, j) \<in> set (concat (map (\<lambda>i. map (Pair i) [Suc i..<n]) [0..<n])) \<longleftrightarrow> i < j \<and> j < n"
    for i j
    by (auto simp add: image_iff)
  then show ?thesis by auto
qed

lemma distance_same_y: "distance (u, w) (v, w) = \<bar>u - v\<bar>"
  by (simp add: distance_def)

lemma pair_of_sel [simp]:
  "pv_i (pair_of a cs hs i j) = i"
  "pv_j (pair_of a cs hs i j) = j"
  "d_abs (pair_of a cs hs i j) = distance (cs ! i) (cs ! j)"
  "avg_h (pair_of a cs hs i j) = (if hs ! i > 0 \<and> hs ! j > 0 then (hs ! i + hs ! j) / 2 else 1)"
  "d_rel (pair_of a cs hs i j) = d_abs (pair_of a cs hs i j) / avg_h (pair_of a cs hs i j)"
  "abs_flag (pair_of a cs hs i j) = (d_abs (pair_of a cs hs i j) < args_distance a)"
  "rel_flag (pair_of a cs hs i j) = (d_rel (pair_of a cs hs i j) < args_rel_threshold a)"
  by (simp_all add: pair_of_def)

subsection \<open>The example frame, evaluated\<close>

lemma example_centers:
  "map person_center example_frame = [Inr (0, 0), Inr (100, 0), Inr (250, 0)]"
  by (simp add: person_center_def find_keypoint_def LEFT_HIP_ID_def RIGHT_HIP_ID_def
      py_div_def py_sum_def)

lemma example_heights:
  "map person_height example_frame = [Inr 200, Inr 100, Inr 0]"
  by (simp add: person_height_def)

lemma example_run:
  "analyze_poses example_args example_frame =
     Inr (example_output, True, [(0, 0), (100, 0), (250, 0)], [200, 100, 0])"
proof -
  have g: "geometry_loop 0 example_frame ([], [], [CentersHeader]) =
      Inr ([(0, 0), (100, 0), (250, 0)], [200, 100, 0],
           [CentersHeader, PersonLine 0 (0, 0) 200, PersonLine 1 (100, 0) 100,
            PersonLine 2 (250, 0) 0])"
    using example_centers example_heights by simp
  have b: "pair_body example_args [(0, 0), (100, 0), (250, 0)] [200, 100, 0] 0 (Suc 0) =
        Inr \<lparr>pv_i = 0, pv_j = Suc 0, d_abs = 100, avg_h = 150, d_rel = 2 / 3,
                abs_flag = True, rel_flag = True\<rparr>"
     "pair_body example_args [(0, 0), (100, 0), (250, 0)] [200, 100, 0] 0 (Suc (Suc 0)) =
        Inr \<lparr>pv_i = 0, pv_j = Suc (Suc 0), d_abs = 250, avg_h = 1, d_rel = 250,
                abs_flag = False, rel_flag = False\<rparr>"
     "pair_body example_args [(0, 0), (100, 0), (250, 0)] [200, 100, 0] (Suc 0) (Suc (Suc 0)) =
        Inr \<lparr>pv_i = Suc 0, pv_j = Suc (Suc 0), d_abs = 150, avg_h = 1, d_rel = 150,
                abs_flag = False, rel_flag = False\<rparr>"
    by (simp_all add: pair_body_def py_index_def avg_h_expr_def py_div_def distance_same_y)
  show ?thesis
    by (simp add: analyze_poses_def g b numeral_2_eq_2 del: geometry_loop.simps)
qed

subsection \<open>The claims\<close>

text \<open>
  Claim C2.  On the empty pose list \<open>analyze_poses\<close> returns
  \<open>(False, [], [])\<close>: no violation, no centers, no heights.  It prints the single line
  "No people detected", so the sequence of pair verdicts is empty as well.
\<close>

theorem analyze_poses_no_people:
  "analyze_poses a [] = Inr ([NoPeople], False, [], []) \<and> pair_verdicts [NoPeople] = []"
  by (simp add: analyze_poses_def)

theorem analyze_poses_no_people_witness:
  "analyze_poses \<lparr>args_distance = 150, args_rel_threshold = 7 / 10\<rparr> []
     = Inr ([NoPeople], False, [], [])"
  using analyze_poses_no_people [of "\<lparr>args_distance = 150, args_rel_threshold = 7 / 10\<rparr>"]
  by simp

text \<open>
  Claim C3.  For a pose with at least one keypoint, \<open>person_center\<close> returns the
  coordinate-wise midpoint of the left hip (the first keypoint with ID 11) and the right
  hip (the first keypoint with ID 12) when both IDs occur in the pose, and the
  coordinate-wise arithmetic mean of all keypoints otherwise.  It is a function of the
  pose alone.
\<close>

theorem person_center_hips_or_mean:
  assumes "Keypoints p \<noteq> []"
  shows "person_center p =
     Inr (if (\<exists>k\<in>set (Keypoints p). ID k = 11) \<and> (\<exists>k\<in>set (Keypoints p). ID k = 12)
          then ((x (hd (filter (\<lambda>k. ID k = 11) (Keypoints p)))
                   + x (hd (filter (\<lambda>k. ID k = 12) (Keypoints p)))) / 2,
                (y (hd (filter (\<lambda>k. ID k = 11) (Keypoints p)))
                   + y (hd (filter (\<lambda>k. ID k = 12) (Keypoints p)))) / 2)
          else (sum_list (map x (Keypoints p)) / real (length (Keypoints p)),
                sum_list (map y (Keypoints p)) / real (length (Keypoints p))))"
proof (cases "(\<exists>k\<in>set (Keypoints p). ID k = 11) \<and> (\<exists>k\<in>set (Keypoints p). ID k = 12)")
  case True
  then have "find_in (Keypoints p) LEFT_HIP_ID = Some (hd (filter (\<lambda>k. ID k = 11) (Keypoints p)))"
    "find_in (Keypoints p) RIGHT_HIP_ID = Some (hd (filter (\<lambda>k. ID k = 12) (Keypoints p)))"
    by (simp_all add: find_in_hd_filter LEFT_HIP_ID_def RIGHT_HIP_ID_def)
  from person_center_hips [OF this] True show ?thesis by simp
next
  case False
  then have "find_in (Keypoints p) LEFT_HIP_ID = None \<or> find_in (Keypoints p) RIGHT_HIP_ID = None"
    by (auto simp add: find_in_None LEFT_HIP_ID_def RIGHT_HIP_ID_def)
  from person_center_fallback [OF this assms] False show ?thesis by auto
qed

theorem person_center_hips_or_mean_witness:
  "person_center \<lparr>Keypoints = [\<lparr>ID = 0, x = 100, y = 100\<rparr>, \<lparr>ID = 11, x = 0, y = 0\<rparr>,
                                \<lparr>ID = 12, x = 4, y = 2\<rparr>]\<rparr> = Inr (2, 1)
   \<and> person_center \<lparr>Keypoints = [\<lparr>ID = 11, x = 0, y = 0\<rparr>, \<lparr>ID = 5, x = 4, y = 2\<rparr>,
                                \<lparr>ID = 6, x = 2, y = 7\<rparr>]\<rparr> = Inr (2, 3)"
  using person_center_hips_or_mean [of "\<lparr>Keypoints = [\<lparr>ID = 0, x = 100, y = 100\<rparr>,
          \<lparr>ID = 11, x = 0, y = 0\<rparr>, \<lparr>ID = 12, x = 4, y = 2\<rparr>]\<rparr>"]
    person_center_hips_or_mean [of "\<lparr>Keypoints = [\<lparr>ID = 11, x = 0, y = 0\<rparr>,
          \<lparr>ID = 5, x = 4, y = 2\<rparr>, \<lparr>ID = 6, x = 2, y = 7\<rparr>]\<rparr>"]
  by simp

text \<open>
  Claim C4, as amended.  A pose with zero keypoints does not yield a value: in
  \<open>person_center\<close> the unguarded \<open>sum(xs) / len(xs)\<close> raises \<open>ZeroDivisionError\<close>, in
  \<open>person_height\<close> the \<open>max\<close> of the empty list raises \<open>ValueError\<close>, and
  \<open>analyze_poses\<close> on a frame that holds such a pose ends with the \<open>ZeroDivisionError\<close> of
  the center computation.
\<close>

theorem empty_pose_raises:
  assumes "Keypoints p = []"
  shows "person_center p = Inl ZeroDivisionError \<and> person_height p = Inl ValueError
       \<and> (p \<in> set poses \<longrightarrow> analyze_poses a poses = Inl ZeroDivisionError)"
  using assms
  by (auto simp add: person_center_empty person_height_empty intro: analyze_poses_empty_pose)

theorem empty_pose_raises_witness:
  "person_center \<lparr>Keypoints = []\<rparr> = Inl ZeroDivisionError
   \<and> person_height \<lparr>Keypoints = []\<rparr> = Inl ValueError
   \<and> analyze_poses \<lparr>args_distance = 150, args_rel_threshold = 7 / 10\<rparr>
        [\<lparr>Keypoints = [\<lparr>ID = 0, x = 1, y = 1\<rparr>]\<rparr>, \<lparr>Keypoints = []\<rparr>] = Inl ZeroDivisionError"
  using empty_pose_raises [of "\<lparr>Keypoints = []\<rparr>"
       "[\<lparr>Keypoints = [\<lparr>ID = 0, x = 1, y = 1\<rparr>]\<rparr>, \<lparr>Keypoints = []\<rparr>]"
       "\<lparr>args_distance = 150, args_rel_threshold = 7 / 10\<rparr>"]
  by simp

text \<open>
  Claim C4 as stated fails: on the pose with zero keypoints neither operation ends with
  an \<open>InvalidPoseError\<close>.
\<close>

theorem empty_pose_not_InvalidPoseError:
  "person_center \<lparr>Keypoints = []\<rparr> \<noteq> Inl InvalidPoseError
   \<and> person_height \<lparr>Keypoints = []\<rparr> \<noteq> Inl InvalidPoseError"
  by (simp add: person_center_empty person_height_empty)

text \<open>
  Claim C5.  For a pose with at least one keypoint, \<open>person_height\<close> returns the largest
  y-coordinate of its keypoints minus the smallest; for a pose with exactly one keypoint
  the height is 0.
\<close>

theorem person_height_span:
  "(Keypoints p \<noteq> [] \<longrightarrow>
      person_height p = Inr (Max (set (map y (Keypoints p))) - Min (set (map y (Keypoints p)))))
   \<and> (length (Keypoints p) = 1 \<longrightarrow> person_height p = Inr 0)"
proof -
  have "person_height p = Inr 0" if "length (Keypoints p) = 1"
  proof -
    from that obtain k where "Keypoints p = [k]"
      by (cases "Keypoints p") auto
    then show ?thesis by (simp add: person_height_def)
  qed
  then show ?thesis by (simp add: person_height_nonempty)
qed

theorem person_height_span_witness:
  "person_height \<lparr>Keypoints = [\<lparr>ID = 0, x = 1, y = 5\<rparr>, \<lparr>ID = 1, x = 2, y = 9\<rparr>,
                                \<lparr>ID = 2, x = 2, y = 3\<rparr>]\<rparr> = Inr 6
   \<and> person_height \<lparr>Keypoints = [\<lparr>ID = 0, x = 1, y = 5\<rparr>]\<rparr> = Inr 0"
  using person_height_span [of "\<lparr>Keypoints = [\<lparr>ID = 0, x = 1, y = 5\<rparr>, \<lparr>ID = 1, x = 2, y = 9\<rparr>,
                                \<lparr>ID = 2, x = 2, y = 3\<rparr>]\<rparr>"]
    person_height_span [of "\<lparr>Keypoints = [\<lparr>ID = 0, x = 1, y = 5\<rparr>]\<rparr>"]
  by simp

text \<open>
  Claim C1.  On a frame of N poses that all have keypoints, \<open>analyze_poses\<close> returns, and
  it evaluates exactly N * (N - 1) / 2 pair verdicts: one for each pair of indices
  \<open>i < j < N\<close>, in the order of the two nested iterations, none twice.  The returned
  \<open>any_violence\<close> is true if and only if some pair has \<open>abs_flag\<close> or \<open>rel_flag\<close> set.
\<close>

theorem analyze_poses_all_pairs:
  assumes "\<forall>p\<in>set poses. Keypoints p \<noteq> []"
  shows "\<exists>out anyv cs hs.
           analyze_poses a poses = Inr (out, anyv, cs, hs)
         \<and> length (pair_verdicts out) = length poses * (length poses - 1) div 2
         \<and> map (\<lambda>pv. (pv_i pv, pv_j pv)) (pair_verdicts out)
             = concat (map (\<lambda>i. map (Pair i) [Suc i..<length poses]) [0..<length poses])
         \<and> distinct (map (\<lambda>pv. (pv_i pv, pv_j pv)) (pair_verdicts out))
         \<and> set (map (\<lambda>pv. (pv_i pv, pv_j pv)) (pair_verdicts out))
             = {(i, j). i < j \<and> j < length poses}
         \<and> (anyv \<longleftrightarrow> (\<exists>pv\<in>set (pair_verdicts out). abs_flag pv \<or> rel_flag pv))"
proof -
  from analyze_poses_run [OF assms, of a] obtain out anyv cs hs where
    run: "analyze_poses a poses = Inr (out, anyv, cs, hs)" and
    pvs: "pair_verdicts out =
      concat (map (\<lambda>i. map (pair_of a cs hs i) [Suc i..<length poses]) [0..<length poses])" and
    anyv: "anyv = (\<exists>pv\<in>set (pair_verdicts out). abs_flag pv \<or> rel_flag pv)"
    by blast
  have len: "length (pair_verdicts out) = length poses * (length poses - 1) div 2"
    unfolding pvs by (rule length_index_pairs)
  have ixs: "map (\<lambda>pv. (pv_i pv, pv_j pv)) (pair_verdicts out)
      = concat (map (\<lambda>i. map (Pair i) [Suc i..<length poses]) [0..<length poses])"
    unfolding pvs by (simp add: map_concat comp_def)
  have dist: "distinct (map (\<lambda>pv. (pv_i pv, pv_j pv)) (pair_verdicts out))"
    unfolding ixs by (rule distinct_index_pairs) simp
  have st: "set (map (\<lambda>pv. (pv_i pv, pv_j pv)) (pair_verdicts out))
      = {(i, j). i < j \<and> j < length poses}"
    unfolding ixs by (rule set_index_pairs)
  from run len ixs dist st anyv show ?thesis by blast
qed

text \<open>The theorem at the example frame.\<close>

theorem analyze_poses_all_pairs_witness:
  "analyze_poses example_args example_frame =
     Inr (example_output, True, [(0, 0), (100, 0), (250, 0)], [200, 100, 0])
   \<and> length (pair_verdicts example_output) = 3
   \<and> map (\<lambda>pv. (pv_i pv, pv_j pv)) (pair_verdicts example_output) = [(0, 1), (0, 2), (1, 2)]"
  using analyze_poses_all_pairs [of example_frame example_args]
  by (simp add: example_run)

text \<open>
  Claim C6.  For every pair \<open>(i, j)\<close> that \<open>analyze_poses\<close> evaluates, \<open>avg_h\<close> is the
  arithmetic mean of \<open>heights[i]\<close> and \<open>heights[j]\<close> when both are strictly positive and
  exactly 1 otherwise; so it is strictly positive, the division \<open>d_abs / avg_h\<close> never
  raises, and \<open>d_rel\<close> is that quotient.
\<close>

theorem avg_height_guard:
  assumes "\<forall>p\<in>set poses. Keypoints p \<noteq> []"
  shows "\<exists>out anyv cs hs.
           analyze_poses a poses = Inr (out, anyv, cs, hs)
         \<and> (\<forall>pv\<in>set (pair_verdicts out).
               pv_i pv < pv_j pv \<and> pv_j pv < length hs
             \<and> avg_h pv = (if 0 < hs ! pv_i pv \<and> 0 < hs ! pv_j pv
                           then (hs ! pv_i pv + hs ! pv_j pv) / 2 else 1)
             \<and> 0 < avg_h pv
             \<and> d_rel pv = d_abs pv / avg_h pv)"
proof -
  from analyze_poses_run [OF assms, of a] obtain out anyv cs hs where
    run: "analyze_poses a poses = Inr (out, anyv, cs, hs)" and
    hs: "list_all2 (\<lambda>p h. person_height p = Inr h) poses hs" and
    pvs: "pair_verdicts out =
      concat (map (\<lambda>i. map (pair_of a cs hs i) [Suc i..<length poses]) [0..<length poses])"
    by blast
  from hs have len: "length poses = length hs" by (rule list_all2_lengthD)
  have "\<forall>pv\<in>set (pair_verdicts out).
               pv_i pv < pv_j pv \<and> pv_j pv < length hs
             \<and> avg_h pv = (if 0 < hs ! pv_i pv \<and> 0 < hs ! pv_j pv
                           then (hs ! pv_i pv + hs ! pv_j pv) / 2 else 1)
             \<and> 0 < avg_h pv
             \<and> d_rel pv = d_abs pv / avg_h pv"
    unfolding pvs using len by auto
  with run show ?thesis by blast
qed

text \<open>The theorem at the example frame.\<close>

theorem avg_height_guard_witness:
  "analyze_poses example_args example_frame =
     Inr (example_output, True, [(0, 0), (100, 0), (250, 0)], [200, 100, 0])
   \<and> map avg_h (pair_verdicts example_output) = [150, 1, 1]
   \<and> map d_rel (pair_verdicts example_output) = [100 / 150, 250 / 1, 150 / 1]"
  using avg_height_guard [of example_frame example_args]
  by (simp add: example_run)

text \<open>
  Claim C7.  For every pair that \<open>analyze_poses\<close> evaluates, \<open>d_abs\<close> is the distance of the
  two centers, \<open>abs_flag\<close> is \<open>d_abs < args.distance\<close> and \<open>rel_flag\<close> is
  \<open>d_rel < args.rel_threshold\<close>, both strict: a pair whose \<open>d_abs\<close> equals the absolute
  threshold has \<open>abs_flag\<close> false.
\<close>

theorem strict_threshold_comparisons:
  assumes "\<forall>p\<in>set poses. Keypoints p \<noteq> []"
  shows "\<exists>out anyv cs hs.
           analyze_poses a poses = Inr (out, anyv, cs, hs)
         \<and> (\<forall>pv\<in>set (pair_verdicts out).
               d_abs pv = distance (cs ! pv_i pv) (cs ! pv_j pv)
             \<and> abs_flag pv = (d_abs pv < args_distance a)
             \<and> rel_flag pv = (d_rel pv < args_rel_threshold a)
             \<and> (d_abs pv = args_distance a \<longrightarrow> \<not> abs_flag pv))"
proof -
  from analyze_poses_run [OF assms, of a] obtain out anyv cs hs where
    run: "analyze_poses a poses = Inr (out, anyv, cs, hs)" and
    pvs: "pair_verdicts out =
      concat (map (\<lambda>i. map (pair_of a cs hs i) [Suc i..<length poses]) [0..<length poses])"
    by blast
  have "\<forall>pv\<in>set (pair_verdicts out).
               d_abs pv = distance (cs ! pv_i pv) (cs ! pv_j pv)
             \<and> abs_flag pv = (d_abs pv < args_distance a)
             \<and> rel_flag pv = (d_rel pv < args_rel_threshold a)
             \<and> (d_abs pv = args_distance a \<longrightarrow> \<not> abs_flag pv)"
    unfolding pvs by auto
  with run show ?thesis by blast
qed

text \<open>The theorem at the example frame.\<close>

theorem strict_threshold_comparisons_witness:
  "analyze_poses example_args example_frame =
     Inr (example_output, True, [(0, 0), (100, 0), (250, 0)], [200, 100, 0])
   \<and> map d_abs (pair_verdicts example_output) = [100, 250, args_distance example_args]
   \<and> map abs_flag (pair_verdicts example_output) = [True, False, False]
   \<and> map rel_flag (pair_verdicts example_output) = [True, False, False]"
  using strict_threshold_comparisons [of example_frame example_args]
  by (simp add: example_run)

text \<open>
  Claim C9.  On a frame of N poses that all have keypoints, \<open>analyze_poses\<close> returns
  centers and heights of length N in input order: entry \<open>i\<close> of the centers is
  \<open>person_center\<close> of pose \<open>i\<close> and entry \<open>i\<close> of the heights is \<open>person_height\<close> of
  pose \<open>i\<close>.
\<close>

theorem analyze_poses_geometry_in_order:
  assumes "\<forall>p\<in>set poses. Keypoints p \<noteq> []"
  shows "\<exists>out anyv cs hs.
           analyze_poses a poses = Inr (out, anyv, cs, hs)
         \<and> length cs = length poses \<and> length hs = length poses
         \<and> (\<forall>i<length poses. person_center (poses ! i) = Inr (cs ! i)
                              \<and> person_height (poses ! i) = Inr (hs ! i))"
proof -
  from analyze_poses_run [OF assms, of a] obtain out anyv cs hs where
    run: "analyze_poses a poses = Inr (out, anyv, cs, hs)" and
    cs: "list_all2 (\<lambda>p c. person_center p = Inr c) poses cs" and
    hs: "list_all2 (\<lambda>p h. person_height p = Inr h) poses hs"
    by blast
  from cs hs have "length cs = length poses \<and> length hs = length poses
         \<and> (\<forall>i<length poses. person_center (poses ! i) = Inr (cs ! i)
                              \<and> person_height (poses ! i) = Inr (hs ! i))"
    by (simp add: list_all2_conv_all_nth)
  with run show ?thesis by blast
qed

text \<open>The theorem at the example frame.\<close>

theorem analyze_poses_geometry_in_order_witness:
  "analyze_poses example_args example_frame =
     Inr (example_output, True, [(0, 0), (100, 0), (250, 0)], [200, 100, 0])
   \<and> map person_center example_frame = [Inr (0, 0), Inr (100, 0), Inr (250, 0)]
   \<and> map person_height example_frame = [Inr 200, Inr 100, Inr 0]"
  using analyze_poses_geometry_in_order [of example_frame example_args]
  by (simp add: example_run example_centers [simplified] example_heights [simplified])

text \<open>
  Claim C10.  \<open>find_keypoint\<close> returns \<open>None\<close> exactly when no keypoint of the pose has the
  requested ID, and otherwise the first keypoint in the collection that has it.  So when
  a hip ID occurs more than once, \<open>person_center\<close> takes the midpoint of the earliest
  keypoint with ID 11 and the earliest keypoint with ID 12.
\<close>

theorem find_keypoint_first_match:
  "(find_keypoint p k = None \<longleftrightarrow> (\<forall>kp\<in>set (Keypoints p). ID kp \<noteq> k))
   \<and> (\<forall>kp. find_keypoint p k = Some kp \<longleftrightarrow>
         (\<exists>n<length (Keypoints p). Keypoints p ! n = kp \<and> ID kp = k
            \<and> (\<forall>m<n. ID (Keypoints p ! m) \<noteq> k)))
   \<and> (\<forall>i j. i < length (Keypoints p) \<and> ID (Keypoints p ! i) = 11
            \<and> (\<forall>m<i. ID (Keypoints p ! m) \<noteq> 11)
            \<and> j < length (Keypoints p) \<and> ID (Keypoints p ! j) = 12
            \<and> (\<forall>m<j. ID (Keypoints p ! m) \<noteq> 12)
          \<longrightarrow> person_center p = Inr ((x (Keypoints p ! i) + x (Keypoints p ! j)) / 2,
                                    (y (Keypoints p ! i) + y (Keypoints p ! j)) / 2))"
proof -
  have "person_center p = Inr ((x (Keypoints p ! i) + x (Keypoints p ! j)) / 2,
                                    (y (Keypoints p ! i) + y (Keypoints p ! j)) / 2)"
    if "i < length (Keypoints p)" "ID (Keypoints p ! i) = 11" "\<forall>m<i. ID (Keypoints p ! m) \<noteq> 11"
       "j < length (Keypoints p)" "ID (Keypoints p ! j) = 12" "\<forall>m<j. ID (Keypoints p ! m) \<noteq> 12"
    for i j
  proof -
    from that have "find_in (Keypoints p) LEFT_HIP_ID = Some (Keypoints p ! i)"
      "find_in (Keypoints p) RIGHT_HIP_ID = Some (Keypoints p ! j)"
      unfolding find_in_Some LEFT_HIP_ID_def RIGHT_HIP_ID_def by blast+
    then show ?thesis by (rule person_center_hips)
  qed
  then show ?thesis
    by (simp add: find_keypoint_def find_in_None find_in_Some)
qed

theorem find_keypoint_first_match_witness:
  "find_keypoint \<lparr>Keypoints = [\<lparr>ID = 11, x = 0, y = 0\<rparr>, \<lparr>ID = 12, x = 4, y = 2\<rparr>,
                                \<lparr>ID = 11, x = 10, y = 10\<rparr>, \<lparr>ID = 12, x = 40, y = 20\<rparr>]\<rparr> 11
     = Some \<lparr>ID = 11, x = 0, y = 0\<rparr>
   \<and> find_keypoint \<lparr>Keypoints = [\<lparr>ID = 11, x = 0, y = 0\<rparr>, \<lparr>ID = 12, x = 4, y = 2\<rparr>,
                                \<lparr>ID = 11, x = 10, y = 10\<rparr>, \<lparr>ID = 12, x = 40, y = 20\<rparr>]\<rparr> 7
     = None
   \<and> person_center \<lparr>Keypoints = [\<lparr>ID = 11, x = 0, y = 0\<rparr>, \<lparr>ID = 12, x = 4, y = 2\<rparr>,
                                \<lparr>ID = 11, x = 10, y = 10\<rparr>, \<lparr>ID = 12, x = 40, y = 20\<rparr>]\<rparr>
     = Inr (2, 1)"
proof -
  let ?p = "\<lparr>Keypoints = [\<lparr>ID = 11, x = 0, y = 0\<rparr>, \<lparr>ID = 12, x = 4, y = 2\<rparr>,
                                \<lparr>ID = 11, x = 10, y = 10\<rparr>, \<lparr>ID = 12, x = 40, y = 20\<rparr>]\<rparr>"
  note fm = find_keypoint_first_match [of ?p]
  from fm [of 7] have none: "find_keypoint ?p 7 = None" by simp
  from fm [of 11] have "find_keypoint ?p 11 = Some \<lparr>ID = 11, x = 0, y = 0\<rparr>
      \<longleftrightarrow> (\<exists>n<length (Keypoints ?p). Keypoints ?p ! n = \<lparr>ID = 11, x = 0, y = 0\<rparr>
            \<and> ID \<lparr>ID = 11, x = 0, y = 0\<rparr> = 11 \<and> (\<forall>m<n. ID (Keypoints ?p ! m) \<noteq> 11))"
    by blast
  moreover have "\<exists>n<length (Keypoints ?p). Keypoints ?p ! n = \<lparr>ID = 11, x = 0, y = 0\<rparr>
            \<and> ID \<lparr>ID = 11, x = 0, y = 0\<rparr> = 11 \<and> (\<forall>m<n. ID (Keypoints ?p ! m) \<noteq> 11)"
    by (rule exI [of _ 0]) simp
  ultimately have some: "find_keypoint ?p 11 = Some \<lparr>ID = 11, x = 0, y = 0\<rparr>" by blast
  from fm [of 11] have "0 < length (Keypoints ?p) \<and> ID (Keypoints ?p ! 0) = 11
            \<and> (\<forall>m<0. ID (Keypoints ?p ! m) \<noteq> 11)
            \<and> 1 < length (Keypoints ?p) \<and> ID (Keypoints ?p ! 1) = 12
            \<and> (\<forall>m<1. ID (Keypoints ?p ! m) \<noteq> 12)
          \<longrightarrow> person_center ?p = Inr ((x (Keypoints ?p ! 0) + x (Keypoints ?p ! 1)) / 2,
                                    (y (Keypoints ?p ! 0) + y (Keypoints ?p ! 1)) / 2)"
    by blast
  then have "person_center ?p = Inr (2, 1)" by simp
  with none some show ?thesis by blast
qed

text \<open>
  Claim C8, as amended.  Let the left hip be the first keypoint with ID 11 (at position
  \<open>i\<close>) and the right hip the first keypoint with ID 12 (at position \<open>j\<close>).  If no
  keypoint strictly between the two positions has ID 11 or 12, then exchanging the two
  keypoints in the collection leaves \<open>person_center\<close> unchanged.
\<close>

theorem person_center_hip_swap:
  assumes "i < length (Keypoints p)" "j < length (Keypoints p)"
    and "ID (Keypoints p ! i) = 11" "\<forall>m<i. ID (Keypoints p ! m) \<noteq> 11"
    and "ID (Keypoints p ! j) = 12" "\<forall>m<j. ID (Keypoints p ! m) \<noteq> 12"
    and "\<forall>m. min i j < m \<and> m < max i j \<longrightarrow>
           ID (Keypoints p ! m) \<noteq> 11 \<and> ID (Keypoints p ! m) \<noteq> 12"
  shows "person_center (p\<lparr>Keypoints := (Keypoints p)[i := Keypoints p ! j, j := Keypoints p ! i]\<rparr>)
           = person_center p"
proof -
  let ?ks = "Keypoints p"
  let ?ks' = "?ks[i := ?ks ! j, j := ?ks ! i]"
  from assms have ne: "i \<noteq> j" by auto
  from assms have l: "find_in ?ks LEFT_HIP_ID = Some (?ks ! i)"
    and r: "find_in ?ks RIGHT_HIP_ID = Some (?ks ! j)"
    unfolding find_in_Some LEFT_HIP_ID_def RIGHT_HIP_ID_def by blast+
  have nth: "?ks' ! m = (if m = j then ?ks ! i else if m = i then ?ks ! j else ?ks ! m)"
    if "m < length ?ks" for m
    using that assms(1,2) by (simp add: nth_list_update)
  have "\<forall>m<j. ID (?ks' ! m) \<noteq> 11"
  proof (intro allI impI)
    fix m assume m: "m < j"
    show "ID (?ks' ! m) \<noteq> 11"
    proof (cases "m = i")
      case True
      with m assms show ?thesis by (simp add: nth)
    next
      case False
      with m assms(2) have e: "?ks' ! m = ?ks ! m" by (simp add: nth)
      from False m assms(4,7) have "ID (?ks ! m) \<noteq> 11"
        by (cases "m < i") auto
      with e show ?thesis by simp
    qed
  qed
  with assms ne have l': "find_in ?ks' LEFT_HIP_ID = Some (?ks ! i)"
    unfolding find_in_Some LEFT_HIP_ID_def
    by (intro exI [of _ j]) (simp add: nth)
  have "\<forall>m<i. ID (?ks' ! m) \<noteq> 12"
  proof (intro allI impI)
    fix m assume m: "m < i"
    show "ID (?ks' ! m) \<noteq> 12"
    proof (cases "m = j")
      case True
      with m assms show ?thesis by (simp add: nth)
    next
      case False
      with m assms(1) have e: "?ks' ! m = ?ks ! m" by (simp add: nth)
      from False m assms(6,7) have "ID (?ks ! m) \<noteq> 12"
        by (cases "m < j") auto
      with e show ?thesis by simp
    qed
  qed
  with assms ne have r': "find_in ?ks' RIGHT_HIP_ID = Some (?ks ! j)"
    unfolding find_in_Some RIGHT_HIP_ID_def
    by (intro exI [of _ i]) (simp add: nth)
  have "person_center (p\<lparr>Keypoints := ?ks'\<rparr>)
      = Inr ((x (?ks ! i) + x (?ks ! j)) / 2, (y (?ks ! i) + y (?ks ! j)) / 2)"
    by (rule person_center_hips) (simp_all add: l' r')
  with person_center_hips [OF l r] show ?thesis by simp
qed

theorem person_center_hip_swap_witness:
  "person_center \<lparr>Keypoints = [\<lparr>ID = 0, x = 9, y = 9\<rparr>, \<lparr>ID = 12, x = 4, y = 2\<rparr>,
                                \<lparr>ID = 5, x = 1, y = 1\<rparr>, \<lparr>ID = 11, x = 0, y = 0\<rparr>,
                                \<lparr>ID = 11, x = 10, y = 10\<rparr>]\<rparr>
   = person_center \<lparr>Keypoints = [\<lparr>ID = 0, x = 9, y = 9\<rparr>, \<lparr>ID = 11, x = 0, y = 0\<rparr>,
                                \<lparr>ID = 5, x = 1, y = 1\<rparr>, \<lparr>ID = 12, x = 4, y = 2\<rparr>,
                                \<lparr>ID = 11, x = 10, y = 10\<rparr>]\<rparr>"
proof -
  let ?p = "\<lparr>Keypoints = [\<lparr>ID = 0, x = 9, y = 9\<rparr>, \<lparr>ID = 11, x = 0, y = 0\<rparr>,
                                \<lparr>ID = 5, x = 1, y = 1\<rparr>, \<lparr>ID = 12, x = 4, y = 2\<rparr>,
                                \<lparr>ID = 11, x = 10, y = 10\<rparr>]\<rparr>"
  have first_left: "\<forall>m<1. ID (Keypoints ?p ! m) \<noteq> 11"
    by simp
  have first_right: "\<forall>m<3. ID (Keypoints ?p ! m) \<noteq> 12"
    by (simp add: numeral_3_eq_3 less_Suc_eq)
  have between: "\<forall>m. min 1 3 < m \<and> m < max 1 3 \<longrightarrow>
      ID (Keypoints ?p ! m) \<noteq> 11 \<and> ID (Keypoints ?p ! m) \<noteq> 12"
  proof (intro allI impI)
    fix m :: nat
    assume "min 1 3 < m \<and> m < max 1 3"
    then have "m = 2" by simp
    then show "ID (Keypoints ?p ! m) \<noteq> 11 \<and> ID (Keypoints ?p ! m) \<noteq> 12"
      by simp
  qed
  have "person_center (?p\<lparr>Keypoints := (Keypoints ?p)[1 := Keypoints ?p ! 3, 3 := Keypoints ?p ! 1]\<rparr>)
      = person_center ?p"
    by (rule person_center_hip_swap [OF _ _ _ first_left _ first_right between]) simp_all
  then show ?thesis by simp
qed

text \<open>
  Claim C8 as stated fails on a pose with two keypoints of ID 11: exchanging the first
  left hip (position 0) with the right hip (position 2) brings the second keypoint with
  ID 11 to the front of the first, and the center moves from \<open>(2, 1)\<close> to \<open>(7, 6)\<close>.
\<close>

theorem person_center_hip_swap_duplicate:
  "person_center \<lparr>Keypoints = [\<lparr>ID = 11, x = 0, y = 0\<rparr>, \<lparr>ID = 11, x = 10, y = 10\<rparr>,
                                \<lparr>ID = 12, x = 4, y = 2\<rparr>]\<rparr> = Inr (2, 1)
   \<and> person_center \<lparr>Keypoints = [\<lparr>ID = 11, x = 0, y = 0\<rparr>, \<lparr>ID = 11, x = 10, y = 10\<rparr>,
                                \<lparr>ID = 12, x = 4, y = 2\<rparr>]
         [0 := [\<lparr>ID = 11, x = 0, y = 0\<rparr>, \<lparr>ID = 11, x = 10, y = 10\<rparr>,
                \<lparr>ID = 12, x = 4, y = 2\<rparr>] ! 2,
          2 := [\<lparr>ID = 11, x = 0, y = 0\<rparr>, \<lparr>ID = 11, x = 10, y = 10\<rparr>,
                \<lparr>ID = 12, x = 4, y = 2\<rparr>] ! 0]\<rparr> = Inr (7, 6)"
  by (simp add: person_center_def find_keypoint_def LEFT_HIP_ID_def RIGHT_HIP_ID_def)

end
